theory Spec2Isabelle
  imports Main "HOL-Library.Word"
begin

unbundle bit_operations_syntax

section \<open>The two-wire bus underneath the driver\<close>

text \<open>
  \<^verbatim>\<open>Si115X.cpp\<close> talks to the sensor through the Arduino \<^verbatim>\<open>Wire\<close> object only, in two
  fixed patterns:
  \<^item> \<^verbatim>\<open>beginTransmission(addr); write(data, len); endTransmission()\<close>, a transmission of a
    packet of bytes to the peer at \<^verbatim>\<open>addr\<close>;
  \<^item> \<^verbatim>\<open>requestFrom(addr, n); if (available()) val = read()\<close>, a request whose answer is
    either one byte or nothing.

  The bus and whatever is attached to it are a state of type \<open>'s\<close> and these two
  operations on it. A byte is an \<open>8 word\<close>; the C++ \<^verbatim>\<open>int\<close> is modelled by \<open>int\<close>: every
  \<^verbatim>\<open>int\<close> the driver computes lies between \<open>-16\<close> and \<open>65535\<close> in value, or is the loop index
  below \<open>10000\<close>, and the products \<open>byte * 256\<close> are formed in the fields of the reading.
\<close>

type_synonym byte = "8 word"

record 's wire =
  transmit :: "byte \<Rightarrow> byte list \<Rightarrow> 's \<Rightarrow> 's"
  request :: "byte \<Rightarrow> int \<Rightarrow> 's \<Rightarrow> byte option \<times> 's"

text \<open>
  The constants of \<^verbatim>\<open>Si115X.h\<close> that the functions below use. The header is not among the
  sources, so the constants are a parameter \<open>K\<close> of every function.
\<close>

record Si115X_h =
  DEVICE_ADDRESS :: byte
  COMMAND :: byte
  HOSTIN_0 :: byte
  RESPONSE_0 :: byte
  RESPONSE_1 :: byte
  HOSTOUT_0 :: byte
  HOSTOUT_1 :: byte
  HOSTOUT_2 :: byte
  HOSTOUT_3 :: byte
  CMD_CTR :: byte
  CMD_ERR :: byte

section \<open>Bus transaction layer\<close>

definition write_data :: "'s wire \<Rightarrow> byte \<Rightarrow> byte list \<Rightarrow> 's \<Rightarrow> 's" where
  "write_data W addr data s = transmit W addr data s"

text \<open>\<^verbatim>\<open>int val = -1; write_data(addr, &reg, 1); requestFrom; if (available()) val = read();\<close>\<close>

definition read_register :: "'s wire \<Rightarrow> byte \<Rightarrow> byte \<Rightarrow> int \<Rightarrow> 's \<Rightarrow> int \<times> 's" where
  "read_register W addr reg bytesOfData s =
     (let s1 = write_data W addr [reg] s;
          (got, s2) = request W addr bytesOfData s1
      in (case got of None \<Rightarrow> - 1 | Some b \<Rightarrow> uint b, s2))"

text \<open>The conversion of an \<^verbatim>\<open>int\<close> to \<^verbatim>\<open>uint8_t\<close> keeps the low eight bits.\<close>

definition to_uint8 :: "int \<Rightarrow> byte" where
  "to_uint8 v = word_of_int v"

section \<open>Command protocol engine\<close>

definition MAX_RETRIES :: nat where
  "MAX_RETRIES = 10000"

text \<open>
  The \<^verbatim>\<open>for\<close> loop of \<^verbatim>\<open>send_command\<close>, entered with index \<open>i\<close>: the value returned and the
  bus afterwards. Falling out of the loop returns 17.
\<close>

function send_command_loop ::
  "'s wire \<Rightarrow> Si115X_h \<Rightarrow> int \<Rightarrow> nat \<Rightarrow> 's \<Rightarrow> int \<times> 's" where
  "send_command_loop W K initial_cmd_ctr i s =
     (if i < MAX_RETRIES then
        (let (v, s') = read_register W (DEVICE_ADDRESS K) (RESPONSE_0 K) 1 s;
             response = to_uint8 v;
             cmd_ctr = uint (response AND CMD_CTR K)
         in if response AND CMD_ERR K \<noteq> 0 then (cmd_ctr + 1, s')
            else if cmd_ctr > initial_cmd_ctr \<or> (initial_cmd_ctr = 15 \<and> cmd_ctr = 0)
              then (0, s')
            else send_command_loop W K initial_cmd_ctr (i + 1) s')
      else (17, s))"
  by pat_completeness auto
termination
  by (relation "measure (\<lambda>(W, K, c, i, s). MAX_RETRIES - i)") auto

declare send_command_loop.simps [simp del]

definition send_command :: "'s wire \<Rightarrow> Si115X_h \<Rightarrow> byte \<Rightarrow> bool \<Rightarrow> 's \<Rightarrow> int \<times> 's" where
  "send_command W K code force s =
     (let (v, s1) = read_register W (DEVICE_ADDRESS K) (RESPONSE_0 K) 1 s;
          initial_read = to_uint8 v;
          initial_cmd_ctr = uint (initial_read AND CMD_CTR K)
      in if initial_read AND CMD_ERR K \<noteq> 0 \<and> \<not> force
           then ((initial_cmd_ctr + 1) * - 1, s1)
         else
           (let s2 = write_data W (DEVICE_ADDRESS K) [COMMAND K, code] s1
            in send_command_loop W K initial_cmd_ctr 0 s2))"

section \<open>Parameter access\<close>

text \<open>
  One pass through the body of the \<^verbatim>\<open>do\<close> loop of \<^verbatim>\<open>param_set\<close>: the two values the loop
  condition compares, and the bus afterwards. \<^verbatim>\<open>0B10 << 6\<close> is the tag of a parameter write.
\<close>

definition param_set_body ::
  "'s wire \<Rightarrow> Si115X_h \<Rightarrow> byte \<Rightarrow> byte \<Rightarrow> 's \<Rightarrow> int \<times> int \<times> 's" where
  "param_set_body W K loc val s =
     (let (cmmnd_ctr, s1) = read_register W (DEVICE_ADDRESS K) (RESPONSE_0 K) 1 s;
          s2 = write_data W (DEVICE_ADDRESS K) [HOSTIN_0 K, val] s1;
          s3 = write_data W (DEVICE_ADDRESS K) [COMMAND K, loc OR push_bit 6 2] s2;
          (r, s4) = read_register W (DEVICE_ADDRESS K) (RESPONSE_0 K) 1 s3
      in (cmmnd_ctr, r, s4))"

text \<open>
  \<^verbatim>\<open>do { ... } while (r > cmmnd_ctr);\<close> has no bound, so the function is partial: \<open>None\<close>
  stands for a call that never returns.
\<close>

partial_function (option) param_set ::
  "'s wire \<Rightarrow> Si115X_h \<Rightarrow> byte \<Rightarrow> byte \<Rightarrow> 's \<Rightarrow> 's option" where
  "param_set W K loc val s =
     (case param_set_body W K loc val s of
        (cmmnd_ctr, r, s') \<Rightarrow>
          if r > cmmnd_ctr then param_set W K loc val s' else Some s')"

definition param_query_body ::
  "'s wire \<Rightarrow> Si115X_h \<Rightarrow> byte \<Rightarrow> 's \<Rightarrow> int \<times> int \<times> 's" where
  "param_query_body W K loc s =
     (let (cmmnd_ctr, s1) = read_register W (DEVICE_ADDRESS K) (RESPONSE_0 K) 1 s;
          s2 = write_data W (DEVICE_ADDRESS K) [COMMAND K, loc OR push_bit 6 1] s1;
          (r, s3) = read_register W (DEVICE_ADDRESS K) (RESPONSE_0 K) 1 s2
      in (cmmnd_ctr, r, s3))"

partial_function (option) param_query_wait ::
  "'s wire \<Rightarrow> Si115X_h \<Rightarrow> byte \<Rightarrow> 's \<Rightarrow> 's option" where
  "param_query_wait W K loc s =
     (case param_query_body W K loc s of
        (cmmnd_ctr, r, s') \<Rightarrow>
          if r > cmmnd_ctr then param_query_wait W K loc s' else Some s')"

declare param_set.simps [code] param_query_wait.simps [code]

definition param_query :: "'s wire \<Rightarrow> Si115X_h \<Rightarrow> byte \<Rightarrow> 's \<Rightarrow> (int \<times> 's) option" where
  "param_query W K loc s =
     (case param_query_wait W K loc s of
        None \<Rightarrow> None
      | Some s' \<Rightarrow> Some (read_register W (DEVICE_ADDRESS K) (RESPONSE_1 K) 1 s'))"

section \<open>Result decoder\<close>

text \<open>
  \<^verbatim>\<open>LightReading\<close> is declared in the absent header; \<^verbatim>\<open>read_output\<close> assigns its fields
  \<^verbatim>\<open>ok\<close>, \<^verbatim>\<open>ir\<close> and \<^verbatim>\<open>vis\<close>. The channel fields hold whole numbers up to \<open>65535\<close>.

  \<^verbatim>\<open>LightReading result;\<close> is not initialised, and the failure branch assigns \<^verbatim>\<open>ok\<close> only:
  the content \<open>result\<close> that the local variable starts with is a parameter of the model.
\<close>

record LightReading =
  ok :: int
  ir :: int
  vis :: int

definition read_output ::
  "'s wire \<Rightarrow> Si115X_h \<Rightarrow> LightReading \<Rightarrow> 's \<Rightarrow> LightReading \<times> 's" where
  "read_output W K result s =
     (let (d0, s1) = read_register W (DEVICE_ADDRESS K) (HOSTOUT_0 K) 1 s;
          (d1, s2) = read_register W (DEVICE_ADDRESS K) (HOSTOUT_1 K) 1 s1;
          (d2, s3) = read_register W (DEVICE_ADDRESS K) (HOSTOUT_2 K) 1 s2;
          (d3, s4) = read_register W (DEVICE_ADDRESS K) (HOSTOUT_3 K) 1 s3
      in if d0 < 0 \<or> d1 < 0 \<or> d2 < 0 \<or> d3 < 0
           then (result\<lparr>ok := - 1\<rparr>, s4)
         else (result\<lparr>ok := 0, ir := d0 * 256 + d1, vis := d2 * 256 + d3\<rparr>, s4))"

section \<open>A scripted bus\<close>

text \<open>
  To speak about every sequence of answers the bus may give, the bus is a script: the
  \<open>n\<close>-th request is answered by \<open>replies n\<close> (\<open>None\<close> when no byte is available), whatever
  was transmitted before. The state counts the requests made and logs every transmission
  with its address, so that a theorem can say how often the driver polled and what it wrote.
\<close>

record scripted =
  replies :: "nat \<Rightarrow> byte option"
  nreads :: nat
  sent :: "(byte \<times> byte list) list"

definition scripted_wire :: "scripted wire" where
  "scripted_wire =
     \<lparr>transmit = (\<lambda>addr data s. s\<lparr>sent := sent s @ [(addr, data)]\<rparr>),
      request = (\<lambda>addr n s. (replies s (nreads s), s\<lparr>nreads := nreads s + 1\<rparr>))\<rparr>"

text \<open>The status byte the driver sees when the answer to a request is \<open>a\<close>.\<close>

definition seen :: "byte option \<Rightarrow> byte" where
  "seen a = to_uint8 (case a of None \<Rightarrow> - 1 | Some b \<Rightarrow> uint b)"

text \<open>The scripted bus after \<open>n\<close> more reads of the status register.\<close>

definition polled :: "Si115X_h \<Rightarrow> nat \<Rightarrow> scripted \<Rightarrow> scripted" where
  "polled K n s =
     s\<lparr>nreads := nreads s + n,
       sent := sent s @ replicate n (DEVICE_ADDRESS K, [RESPONSE_0 K])\<rparr>"

text \<open>
  A status byte that lets the polling loop go round again: neither of the two tests of the
  loop body fires on it (\<^verbatim>\<open>response & CMD_ERR\<close>, and
  \<^verbatim>\<open>cmd_ctr > initial_cmd_ctr || (initial_cmd_ctr == 15 & cmd_ctr == 0)\<close>).
\<close>

definition status_quiet :: "Si115X_h \<Rightarrow> int \<Rightarrow> byte \<Rightarrow> bool" where
  "status_quiet K initial_cmd_ctr response =
     (response AND CMD_ERR K = 0 \<and>
      \<not> (uint (response AND CMD_CTR K) > initial_cmd_ctr \<or>
         (initial_cmd_ctr = 15 \<and> uint (response AND CMD_CTR K) = 0)))"

text \<open>
  The values that the Si115X datasheet, cited at the top of \<^verbatim>\<open>Si115X.cpp\<close>, gives the
  constants of the header. They serve the concrete examples only; every general statement
  below is about an arbitrary \<open>K\<close>.
\<close>

definition datasheet :: Si115X_h where
  "datasheet =
     \<lparr>DEVICE_ADDRESS = 0x53, COMMAND = 0x0B, HOSTIN_0 = 0x0A, RESPONSE_0 = 0x11,
      RESPONSE_1 = 0x10, HOSTOUT_0 = 0x13, HOSTOUT_1 = 0x14, HOSTOUT_2 = 0x15,
      HOSTOUT_3 = 0x16, CMD_CTR = 0x0F, CMD_ERR = 0x10\<rparr>"

section \<open>A simulated device\<close>

text \<open>
  Modelled from the spec: the device at the other end of the bus. The round trip of a
  parameter is a statement about the driver together with a device, and the device is
  hardware, not code of the repository. This is a device that
  \<^emph>\<open>stores staged parameter writes in its parameter table\<close>, built from what the
  specification says of the sensor:
  \<^item> a one-byte transmission selects the register that the next request reads; a two-byte
    transmission writes the second byte to the register named by the first;
  \<^item> the status register shows the command counter in its low four bits, ``incremented by
    the device each time it finishes processing a command, wrapping 15 to 0''; the device
    never raises its error flag;
  \<^item> ``the device gives no interrupt or blocking acknowledgment; the counter is the only
    liveness signal'': a command written to the command register is finished some time
    later. Time is counted in requests on the bus. Commands wait in the order they were
    written, and the oldest is finished on the request number \<open>latency\<close> after it became
    the oldest; with \<open>latency = 0\<close> a command is finished in the transmission that writes
    it;
  \<^item> finishing a command byte tagged \<^verbatim>\<open>0B10\<close> in its two high bits copies the staged byte
    into the parameter table at the location in the six low bits; finishing one tagged
    \<^verbatim>\<open>0B01\<close> copies the table entry into the result register. Nothing else writes the
    result register.
\<close>

record sim =
  dev_pointer :: byte
  dev_counter :: "4 word"
  dev_hostin :: byte
  dev_response1 :: byte
  dev_table :: "byte \<Rightarrow> byte"
  dev_pending :: "byte list"
  dev_left :: nat

text \<open>Modelled from the spec: what finishing the command byte \<open>c\<close> does to the device.\<close>

definition sim_command :: "byte \<Rightarrow> sim \<Rightarrow> sim" where
  "sim_command c d =
     (let loc = c AND 0x3F in
      if c AND 0xC0 = 0x80 then
        d\<lparr>dev_table := (dev_table d)(loc := dev_hostin d), dev_counter := dev_counter d + 1\<rparr>
      else if c AND 0xC0 = 0x40 then
        d\<lparr>dev_response1 := dev_table d loc, dev_counter := dev_counter d + 1\<rparr>
      else d\<lparr>dev_counter := dev_counter d + 1\<rparr>)"

text \<open>
  Modelled from the spec: the passing of one request. The oldest waiting command, if any,
  is one request nearer to being finished, or is finished now.
\<close>

definition sim_tick :: "nat \<Rightarrow> sim \<Rightarrow> sim" where
  "sim_tick latency d =
     (case dev_pending d of
        [] \<Rightarrow> d
      | c # cs \<Rightarrow>
          if dev_left d \<le> 1 then (sim_command c d)\<lparr>dev_pending := cs, dev_left := latency\<rparr>
          else d\<lparr>dev_left := dev_left d - 1\<rparr>)"

text \<open>
  Modelled from the spec: the device as a bus, for the constants \<open>K\<close> of the driver and a
  latency.
\<close>

definition sim_wire :: "Si115X_h \<Rightarrow> nat \<Rightarrow> sim wire" where
  "sim_wire K latency =
     \<lparr>transmit = (\<lambda>addr data d.
        if addr \<noteq> DEVICE_ADDRESS K then d
        else (case data of
                [reg] \<Rightarrow> d\<lparr>dev_pointer := reg\<rparr>
              | [reg, v] \<Rightarrow>
                  if reg = HOSTIN_0 K then d\<lparr>dev_hostin := v\<rparr>
                  else if reg = COMMAND K then
                    (if latency = 0 then sim_command v d
                     else d\<lparr>dev_pending := dev_pending d @ [v],
                            dev_left := (if dev_pending d = [] then latency else dev_left d)\<rparr>)
                  else d
              | _ \<Rightarrow> d)),
      request = (\<lambda>addr n d.
        if addr = DEVICE_ADDRESS K \<and> 1 \<le> n then
          (let d' = sim_tick latency d
           in (Some (if dev_pointer d' = RESPONSE_0 K then ucast (dev_counter d')
                     else if dev_pointer d' = RESPONSE_1 K then dev_response1 d'
                     else 0), d'))
        else (None, d))\<rparr>"

text \<open>
  The device at rest that the concrete runs start from: nothing waiting, counter 0,
  \<open>0x55\<close> in every entry of the parameter table and \<open>0xEE\<close> left in the result register.
\<close>

definition sim_idle :: sim where
  "sim_idle =
     \<lparr>dev_pointer = 0, dev_counter = 0, dev_hostin = 0, dev_response1 = 0xEE,
      dev_table = (\<lambda>_. 0x55), dev_pending = [], dev_left = 0\<rparr>"

text \<open>\<^verbatim>\<open>param_set(loc, val)\<close> and then \<^verbatim>\<open>param_query(loc)\<close>, as the round trip calls them.\<close>

definition set_then_query ::
  "'s wire \<Rightarrow> Si115X_h \<Rightarrow> byte \<Rightarrow> byte \<Rightarrow> 's \<Rightarrow> (int \<times> 's) option" where
  "set_then_query W K loc val s =
     (case param_set W K loc val s of
        None \<Rightarrow> None
      | Some s1 \<Rightarrow> param_query W K loc s1)"

section \<open>Instruction decoder\<close>

text \<open>
  The header declares the instruction type, the \<^verbatim>\<open>Instruction\<close> structure and
  \<^verbatim>\<open>Instruction decode_instruction(String instruction)\<close>. The two fields \<^verbatim>\<open>p1\<close> and \<^verbatim>\<open>p2\<close>
  are \<^verbatim>\<open>float\<close> in the header; the model leaves their type \<open>'n\<close> open.
\<close>

datatype instruction_type = SET | MSR | RST | UNK

record 'n Instruction =
  type :: instruction_type
  target :: string
  p1 :: 'n
  p2 :: 'n

text \<open>
  The body of \<^verbatim>\<open>decode_instruction\<close> is not among the sources (only its declaration is),
  so it is modelled from the specification. The specification gives the grammar
  \<^verbatim>\<open><verb> <target> [p1] [p2]\<close> over a single line of whitespace-delimited fields; the verbs
  \<^verbatim>\<open>SET\<close>, \<^verbatim>\<open>MSR\<close> and \<^verbatim>\<open>RST\<close>, anything else yielding \<open>UNK\<close>; an opaque target; optional
  numeric fields that default to a sentinel when absent; and a malformed numeric field
  tagging the result \<open>UNK\<close> with the raw text preserved. What it leaves open is a parameter
  or a stated choice of the model: the syntax of a numeric field is the parameter \<open>num\<close>
  (\<open>None\<close> on a malformed field) and the sentinel is the parameter \<open>dflt\<close>; verbs are
  matched case-sensitively; the raw text is kept in \<^verbatim>\<open>target\<close>, the only string of the
  structure; a line without a target or with more than two numeric fields does not fit
  the grammar and is \<open>UNK\<close> as well.
\<close>

text \<open>Modelled from the spec: the whitespace that delimits fields, a space or a tab.\<close>

definition is_blank :: "char \<Rightarrow> bool" where
  "is_blank c = (c = CHR '' '' \<or> c = CHR 0x09)"

text \<open>
  Modelled from the spec: the fields of a line, left to right; \<open>cur\<close> is the field being
  read. Runs of whitespace delimit, and produce no empty field.
\<close>

fun split_fields :: "string \<Rightarrow> string \<Rightarrow> string list" where
  "split_fields cur [] = (if cur = [] then [] else [cur])"
| "split_fields cur (c # cs) =
     (if is_blank c then (if cur = [] then split_fields [] cs else cur # split_fields [] cs)
      else split_fields (cur @ [c]) cs)"

text \<open>Modelled from the spec: the whitespace-delimited fields of a line.\<close>

definition fields :: "string \<Rightarrow> string list" where
  "fields text = split_fields [] text"

text \<open>Modelled from the spec: the verb of an instruction, matched case-sensitively.\<close>

definition verb_type :: "string \<Rightarrow> instruction_type" where
  "verb_type verb =
     (if verb = ''SET'' then SET else if verb = ''MSR'' then MSR
      else if verb = ''RST'' then RST else UNK)"

text \<open>Modelled from the spec: the result \<open>UNK\<close>, with the raw text preserved in the target.\<close>

definition unknown_instruction :: "'n \<Rightarrow> string \<Rightarrow> 'n Instruction" where
  "unknown_instruction dflt text = \<lparr>type = UNK, target = text, p1 = dflt, p2 = dflt\<rparr>"

text \<open>
  Modelled from the spec: \<^verbatim>\<open>decode_instruction\<close>, whose body is missing from the sources,
  for a numeric syntax \<open>num\<close> and a default \<open>dflt\<close>.
\<close>

definition decode_instruction :: "(string \<Rightarrow> 'n option) \<Rightarrow> 'n \<Rightarrow> string \<Rightarrow> 'n Instruction" where
  "decode_instruction num dflt instruction =
     (case fields instruction of
        verb # tgt # params \<Rightarrow>
          (if verb_type verb = UNK then unknown_instruction dflt instruction
           else (case params of
                   [] \<Rightarrow> \<lparr>type = verb_type verb, target = tgt, p1 = dflt, p2 = dflt\<rparr>
                 | [a] \<Rightarrow>
                     (case num a of
                        Some x \<Rightarrow> \<lparr>type = verb_type verb, target = tgt, p1 = x, p2 = dflt\<rparr>
                      | None \<Rightarrow> unknown_instruction dflt instruction)
                 | [a, b] \<Rightarrow>
                     (case (num a, num b) of
                        (Some x, Some y) \<Rightarrow> \<lparr>type = verb_type verb, target = tgt, p1 = x, p2 = y\<rparr>
                      | _ \<Rightarrow> unknown_instruction dflt instruction)
                 | _ \<Rightarrow> unknown_instruction dflt instruction))
      | _ \<Rightarrow> unknown_instruction dflt instruction)"

text \<open>
  A numeric syntax for the concrete examples: unsigned decimal numerals, read as integers
  (48 and 57 are the codes of the characters \<^verbatim>\<open>0\<close> and \<^verbatim>\<open>9\<close>).
\<close>

fun digit_value :: "char \<Rightarrow> nat option" where
  "digit_value c =
     (if (48 :: nat) \<le> of_char c \<and> of_char c \<le> (57 :: nat) then Some (of_char c - 48) else None)"

fun decimal_acc :: "nat \<Rightarrow> string \<Rightarrow> nat option" where
  "decimal_acc acc [] = Some acc"
| "decimal_acc acc (c # cs) =
     (case digit_value c of None \<Rightarrow> None | Some d \<Rightarrow> decimal_acc (10 * acc + d) cs)"

definition decimal :: "string \<Rightarrow> int option" where
  "decimal s = (if s = [] then None else map_option int (decimal_acc 0 s))"

section \<open>The driver on the scripted bus\<close>

lemma seen_None: "seen None = 0xFF"
  by (simp add: seen_def to_uint8_def)

lemma seen_Some: "seen (Some b) = b"
  by (simp add: seen_def to_uint8_def)

lemma write_data_scripted:
  "write_data scripted_wire a d s = s\<lparr>sent := sent s @ [(a, d)]\<rparr>"
  by (simp add: write_data_def scripted_wire_def)

lemma read_register_scripted:
  "read_register scripted_wire a r n s =
     (case replies s (nreads s) of None \<Rightarrow> - 1 | Some b \<Rightarrow> uint b,
      s\<lparr>nreads := nreads s + 1, sent := sent s @ [(a, [r])]\<rparr>)"
  by (simp add: read_register_def write_data_def scripted_wire_def)

lemma read_status_scripted:
  "read_register scripted_wire (DEVICE_ADDRESS K) (RESPONSE_0 K) 1 s = (v, s') \<Longrightarrow>
     to_uint8 v = seen (replies s (nreads s)) \<and> s' = polled K 1 s"
  by (auto simp: read_register_scripted seen_def polled_def)

lemma polled_0: "polled K 0 s = s"
  by (simp add: polled_def)

lemma polled_add: "polled K n (polled K m s) = polled K (m + n) s"
  by (simp add: polled_def replicate_add)

lemma scripted_simps:
  "nreads (polled K n s) = nreads s + n"
  "replies (polled K n s) = replies s"
  "sent (polled K n s) = sent s @ replicate n (DEVICE_ADDRESS K, [RESPONSE_0 K])"
  by (simp_all add: polled_def)

lemma ctr_le_15: "uint ((b :: byte) AND 0x0F) \<le> 15"
proof -
  have "b AND 0x0F \<le> 0x0F" by (rule word_and_le1)
  then show ?thesis by (simp add: word_le_def)
qed

text \<open>One turn of the loop, and the loop at its bound.\<close>

lemma loop_step:
  assumes "i < MAX_RETRIES"
  shows "send_command_loop scripted_wire K c i s =
     (let response = seen (replies s (nreads s)); cmd_ctr = uint (response AND CMD_CTR K)
      in if response AND CMD_ERR K \<noteq> 0 then (cmd_ctr + 1, polled K 1 s)
         else if cmd_ctr > c \<or> (c = 15 \<and> cmd_ctr = 0) then (0, polled K 1 s)
         else send_command_loop scripted_wire K c (i + 1) (polled K 1 s))"
proof -
  obtain v s' where r: "read_register scripted_wire (DEVICE_ADDRESS K) (RESPONSE_0 K) 1 s = (v, s')"
    by (cases "read_register scripted_wire (DEVICE_ADDRESS K) (RESPONSE_0 K) 1 s")
  from read_status_scripted [OF r]
  have v: "to_uint8 v = seen (replies s (nreads s))" and s': "s' = polled K 1 s"
    by simp_all
  show ?thesis
    by (subst send_command_loop.simps) (simp add: assms r v s' Let_def)
qed

lemma loop_exhausted: "send_command_loop W K c MAX_RETRIES s = (17, s)"
  by (subst send_command_loop.simps) simp

text \<open>Quiet status bytes are skipped one by one, as long as the budget lasts.\<close>

lemma loop_quiet:
  "\<forall>j<n. status_quiet K c (seen (replies s (nreads s + j))) \<Longrightarrow> i + n \<le> MAX_RETRIES \<Longrightarrow>
     send_command_loop scripted_wire K c i s =
     send_command_loop scripted_wire K c (i + n) (polled K n s)"
proof (induction n arbitrary: i s)
  case 0
  then show ?case by (simp add: polled_0)
next
  case (Suc n)
  from Suc.prems(1) have q0: "status_quiet K c (seen (replies s (nreads s)))"
    by (metis add.right_neutral zero_less_Suc)
  have rest: "\<forall>j<n. status_quiet K c (seen (replies (polled K 1 s) (nreads (polled K 1 s) + j)))"
  proof (intro allI impI)
    fix j assume "j < n"
    then have "Suc j < Suc n" by simp
    from Suc.prems(1) [rule_format, OF this]
    have "status_quiet K c (seen (replies s (nreads s + Suc j)))" .
    then show "status_quiet K c (seen (replies (polled K 1 s) (nreads (polled K 1 s) + j)))"
      by (simp add: polled_def)
  qed
  from Suc.prems(2) have i: "i < MAX_RETRIES" and i': "Suc i + n \<le> MAX_RETRIES" by simp_all
  have "send_command_loop scripted_wire K c i s =
        send_command_loop scripted_wire K c (Suc i) (polled K 1 s)"
    using q0 by (auto simp: loop_step [OF i] status_quiet_def Let_def)
  also have "\<dots> = send_command_loop scripted_wire K c (Suc i + n) (polled K n (polled K 1 s))"
    by (rule Suc.IH [OF rest i'])
  finally show ?case by (simp add: polled_add)
qed

text \<open>\<^verbatim>\<open>send_command\<close> up to its loop.\<close>

lemma send_command_scripted:
  "send_command scripted_wire K code force s =
     (let initial_read = seen (replies s (nreads s));
          initial_cmd_ctr = uint (initial_read AND CMD_CTR K)
      in if initial_read AND CMD_ERR K \<noteq> 0 \<and> \<not> force
           then (- (initial_cmd_ctr + 1), polled K 1 s)
         else send_command_loop scripted_wire K initial_cmd_ctr 0
                ((polled K 1 s)\<lparr>sent := sent (polled K 1 s) @
                                   [(DEVICE_ADDRESS K, [COMMAND K, code])]\<rparr>))"
proof -
  obtain v s' where r: "read_register scripted_wire (DEVICE_ADDRESS K) (RESPONSE_0 K) 1 s = (v, s')"
    by (cases "read_register scripted_wire (DEVICE_ADDRESS K) (RESPONSE_0 K) 1 s")
  from read_status_scripted [OF r]
  have v: "to_uint8 v = seen (replies s (nreads s))" and s': "s' = polled K 1 s"
    by simp_all
  show ?thesis
    by (simp add: send_command_def r v s' Let_def write_data_scripted)
qed

text \<open>
  A whole call in which the command is issued and the first \<open>k\<close> polls are quiet: the
  poll after them decides, unless it is quiet too.
\<close>

lemma run_decided:
  assumes issued: "seen (replies s (nreads s)) AND CMD_ERR K = 0 \<or> force"
    and k: "k < MAX_RETRIES"
    and quiet: "\<forall>j<k. status_quiet K (uint (seen (replies s (nreads s)) AND CMD_CTR K))
                  (seen (replies s (nreads s + 1 + j)))"
  shows "send_command scripted_wire K code force s =
     (let c = uint (seen (replies s (nreads s)) AND CMD_CTR K);
          response = seen (replies s (nreads s + 1 + k));
          cmd_ctr = uint (response AND CMD_CTR K);
          s' = (polled K (k + 2) s)
                 \<lparr>sent := sent s @ [(DEVICE_ADDRESS K, [RESPONSE_0 K]),
                                    (DEVICE_ADDRESS K, [COMMAND K, code])]
                           @ replicate (k + 1) (DEVICE_ADDRESS K, [RESPONSE_0 K])\<rparr>
      in if response AND CMD_ERR K \<noteq> 0 then (cmd_ctr + 1, s')
         else if cmd_ctr > c \<or> (c = 15 \<and> cmd_ctr = 0) then (0, s')
         else send_command_loop scripted_wire K c (k + 1) s')"
proof -
  define c where "c = uint (seen (replies s (nreads s)) AND CMD_CTR K)"
  define s2 where
    "s2 = (polled K 1 s)\<lparr>sent := sent (polled K 1 s) @ [(DEVICE_ADDRESS K, [COMMAND K, code])]\<rparr>"
  have 1: "send_command scripted_wire K code force s = send_command_loop scripted_wire K c 0 s2"
    using issued by (auto simp: send_command_scripted Let_def c_def s2_def)
  have q: "\<forall>j<k. status_quiet K c (seen (replies s2 (nreads s2 + j)))"
    using quiet by (simp add: s2_def polled_def c_def add.commute add.left_commute)
  have 2: "send_command_loop scripted_wire K c 0 s2 =
           send_command_loop scripted_wire K c (0 + k) (polled K k s2)"
    using k by (intro loop_quiet [OF q]) simp
  have 3: "polled K 1 (polled K k s2) =
           (polled K (k + 2) s)
             \<lparr>sent := sent s @ [(DEVICE_ADDRESS K, [RESPONSE_0 K]),
                                (DEVICE_ADDRESS K, [COMMAND K, code])]
                       @ replicate (k + 1) (DEVICE_ADDRESS K, [RESPONSE_0 K])\<rparr>"
    by (simp add: s2_def polled_def replicate_append_same)
  have 4: "replies (polled K k s2) (nreads (polled K k s2)) = replies s (nreads s + 1 + k)"
    by (simp add: s2_def polled_def add.commute add.left_commute)
  have 5: "0 + k < MAX_RETRIES" using k by simp
  show ?thesis
    unfolding 1 2 loop_step [OF 5] 3 4 c_def [symmetric] by (simp add: Let_def)
qed

text \<open>A whole call in which the command is issued and every poll of the budget is quiet.\<close>

lemma run_timeout:
  assumes issued: "seen (replies s (nreads s)) AND CMD_ERR K = 0 \<or> force"
    and quiet: "\<forall>j<MAX_RETRIES. status_quiet K (uint (seen (replies s (nreads s)) AND CMD_CTR K))
                  (seen (replies s (nreads s + 1 + j)))"
  shows "send_command scripted_wire K code force s =
     (17, s\<lparr>nreads := nreads s + 1 + MAX_RETRIES,
            sent := sent s @ [(DEVICE_ADDRESS K, [RESPONSE_0 K]),
                              (DEVICE_ADDRESS K, [COMMAND K, code])]
                      @ replicate MAX_RETRIES (DEVICE_ADDRESS K, [RESPONSE_0 K])\<rparr>)"
proof -
  define c where "c = uint (seen (replies s (nreads s)) AND CMD_CTR K)"
  define s2 where
    "s2 = (polled K 1 s)\<lparr>sent := sent (polled K 1 s) @ [(DEVICE_ADDRESS K, [COMMAND K, code])]\<rparr>"
  have 1: "send_command scripted_wire K code force s = send_command_loop scripted_wire K c 0 s2"
    using issued by (auto simp: send_command_scripted Let_def c_def s2_def)
  have q: "\<forall>j<MAX_RETRIES. status_quiet K c (seen (replies s2 (nreads s2 + j)))"
    using quiet by (simp add: s2_def polled_def c_def add.commute add.left_commute)
  have 2: "send_command_loop scripted_wire K c 0 s2 =
           send_command_loop scripted_wire K c (0 + MAX_RETRIES) (polled K MAX_RETRIES s2)"
    by (intro loop_quiet [OF q]) simp
  show ?thesis
    unfolding 1 2 by (simp add: loop_exhausted s2_def polled_def)
qed

text \<open>With a four-bit counter mask, 17 is returned by the exhausted loop and by nothing else.\<close>

lemma run_codes:
  assumes "CMD_CTR K = 0x0F"
  shows "fst (send_command scripted_wire K code force s) = 17 \<longleftrightarrow>
           (seen (replies s (nreads s)) AND CMD_ERR K = 0 \<or> force) \<and>
           (\<forall>j<MAX_RETRIES. status_quiet K (uint (seen (replies s (nreads s)) AND CMD_CTR K))
                  (seen (replies s (nreads s + 1 + j))))"
    (is "?L \<longleftrightarrow> ?I \<and> ?Q")
proof (cases "?I")
  case False
  have "0 \<le> uint (seen (replies s (nreads s)) AND CMD_CTR K)" by simp
  then have "- (uint (seen (replies s (nreads s)) AND CMD_CTR K) + 1) \<noteq> 17" by arith
  with False show ?thesis by (simp add: send_command_scripted Let_def)
next
  case issued: True
  define c where "c = uint (seen (replies s (nreads s)) AND CMD_CTR K)"
  let ?q = "\<lambda>j. status_quiet K c (seen (replies s (nreads s + 1 + j)))"
  show ?thesis
  proof (cases "\<forall>j<MAX_RETRIES. ?q j")
    case True
    with issued show ?thesis by (simp add: run_timeout c_def)
  next
    case False
    then obtain j0 where j0: "j0 < MAX_RETRIES" "\<not> ?q j0" by blast
    define k where "k = (LEAST j. \<not> ?q j)"
    have nk: "\<not> ?q k" unfolding k_def using j0(2) by (rule LeastI)
    have "k \<le> j0" unfolding k_def using j0(2) by (rule Least_le)
    with j0(1) have k: "k < MAX_RETRIES" by simp
    have before: "\<forall>j<k. ?q j" unfolding k_def using not_less_Least by blast
    have le: "uint (seen (replies s (nreads s + 1 + k)) AND CMD_CTR K) \<le> 15"
      using ctr_le_15 by (simp add: assms)
    have "fst (send_command scripted_wire K code force s) \<noteq> 17"
      using nk le
      by (auto simp: run_decided [OF issued k before [unfolded c_def]] Let_def
                     status_quiet_def c_def)
    with False issued show ?thesis by (simp add: c_def)
  qed
qed

section \<open>Claims about the bus transaction layer\<close>

text \<open>
  C8. Whatever the bus, the address and the register: when the request is answered by a
  byte \<open>b\<close>, \<^verbatim>\<open>read_register\<close> returns the value of \<open>b\<close>, which lies between 0 and 255; when
  no byte is available it returns \<open>-1\<close>; and it returns no other negative value, so \<open>-1\<close>
  is the one failure signal of this layer.
\<close>

theorem read_register_sentinel:
  "(fst (request W addr n (transmit W addr [reg] s)) = None \<longrightarrow>
      fst (read_register W addr reg n s) = - 1) \<and>
   (\<forall>b. fst (request W addr n (transmit W addr [reg] s)) = Some b \<longrightarrow>
      fst (read_register W addr reg n s) = uint b \<and>
      0 \<le> fst (read_register W addr reg n s) \<and> fst (read_register W addr reg n s) \<le> 255) \<and>
   (fst (read_register W addr reg n s) < 0 \<longrightarrow> fst (read_register W addr reg n s) = - 1)"
proof -
  have "uint b \<le> 255" for b :: byte
    using uint_bounded [of b] by simp
  then show ?thesis
    by (auto simp: read_register_def write_data_def Let_def split: prod.splits option.splits)
qed

theorem read_register_sentinel_witness:
  "fst (read_register scripted_wire 0x53 0x11 1
          \<lparr>replies = (\<lambda>n. None), nreads = 0, sent = []\<rparr>) = - 1 \<and>
   fst (read_register scripted_wire 0x53 0x11 1
          \<lparr>replies = (\<lambda>n. Some 0xA7), nreads = 0, sent = []\<rparr>) = 167"
proof -
  let ?dead = "\<lparr>replies = (\<lambda>n. None), nreads = 0, sent = []\<rparr>"
  let ?live = "\<lparr>replies = (\<lambda>n. Some (0xA7 :: byte)), nreads = 0, sent = []\<rparr>"
  have none: "fst (request scripted_wire 0x53 1 (transmit scripted_wire 0x53 [0x11] ?dead)) = None"
    by (simp add: scripted_wire_def)
  have some: "fst (request scripted_wire 0x53 1 (transmit scripted_wire 0x53 [0x11] ?live)) = Some 0xA7"
    by (simp add: scripted_wire_def)
  from read_register_sentinel [of scripted_wire "0x53" 1 "0x11" ?dead] none
  have 1: "fst (read_register scripted_wire 0x53 0x11 1 ?dead) = - 1"
    by blast
  from read_register_sentinel [of scripted_wire "0x53" 1 "0x11" ?live] some
  have "fst (read_register scripted_wire 0x53 0x11 1 ?live) = uint (0xA7 :: byte)"
    by blast
  then have 2: "fst (read_register scripted_wire 0x53 0x11 1 ?live) = 167"
    by simp
  from 1 2 show ?thesis by (rule conjI)
qed

section \<open>Claims about the command protocol engine\<close>

text \<open>
  The claims about \<^verbatim>\<open>send_command\<close> are stated on the scripted bus, for an arbitrary script:
  the call starts at request number \<open>nreads s\<close>, so the initial status read is answered by
  \<open>replies s (nreads s)\<close> and poll number \<open>j\<close> (from 0) by \<open>replies s (nreads s + 1 + j)\<close>. The
  hypothesis \<open>CMD_CTR K = 0x0F\<close> is the four-bit counter field of the status register.
\<close>

text \<open>
  C3. If the first status read shows the error flag and \<open>force\<close> is false, \<^verbatim>\<open>send_command\<close>
  returns \<open>-(initial_counter + 1)\<close>, where \<open>initial_counter\<close> is the low four bits of that
  read; the value is strictly negative; and the bus has seen one transmission only, the
  selector of the status register: no packet went to the command register.
\<close>

theorem send_command_preexisting_error:
  assumes "CMD_CTR K = 0x0F"
    and "seen (replies s (nreads s)) AND CMD_ERR K \<noteq> 0"
  shows "send_command scripted_wire K code False s =
           (- (uint (seen (replies s (nreads s)) AND 0x0F) + 1),
            s\<lparr>nreads := nreads s + 1, sent := sent s @ [(DEVICE_ADDRESS K, [RESPONSE_0 K])]\<rparr>)
         \<and> fst (send_command scripted_wire K code False s) < 0
         \<and> (DEVICE_ADDRESS K, [COMMAND K, code]) \<notin>
             set (drop (length (sent s)) (sent (snd (send_command scripted_wire K code False s))))"
proof -
  have "0 \<le> uint (seen (replies s (nreads s)) AND 0x0F)" by simp
  then have "- (uint (seen (replies s (nreads s)) AND 0x0F) + 1) < 0" by arith
  with assms show ?thesis by (simp add: send_command_scripted Let_def polled_def)
qed

theorem send_command_preexisting_error_witness:
  "send_command scripted_wire datasheet 1 False \<lparr>replies = (\<lambda>n. Some 0x13), nreads = 0, sent = []\<rparr> =
     (- 4, \<lparr>replies = (\<lambda>n. Some 0x13), nreads = 1, sent = [(0x53, [0x11])]\<rparr>)"
proof -
  let ?s = "\<lparr>replies = (\<lambda>n. Some (0x13 :: byte)), nreads = 0, sent = []\<rparr>"
  have 1: "CMD_CTR datasheet = 0x0F" by (simp add: datasheet_def)
  have 2: "seen (replies ?s (nreads ?s)) AND CMD_ERR datasheet \<noteq> 0"
    by (simp add: datasheet_def seen_Some)
  from send_command_preexisting_error [OF 1 2, of 1]
  show ?thesis by (simp add: datasheet_def seen_Some)
qed

text \<open>
  A strict increase of the counter, for comparison with the wrap-around of C4: the command
  is issued, and after \<open>k\<close> quiet polls a status read with the error flag clear shows a
  counter above the initial one. \<^verbatim>\<open>send_command\<close> returns 0 at that read.
\<close>

lemma send_command_counter_increase:
  assumes "seen (replies s (nreads s)) AND CMD_ERR K = 0 \<or> force"
    and "k < MAX_RETRIES"
    and "\<forall>j<k. status_quiet K (uint (seen (replies s (nreads s)) AND CMD_CTR K))
                  (seen (replies s (nreads s + 1 + j)))"
    and "seen (replies s (nreads s + 1 + k)) AND CMD_ERR K = 0"
    and "uint (seen (replies s (nreads s)) AND CMD_CTR K) <
         uint (seen (replies s (nreads s + 1 + k)) AND CMD_CTR K)"
  shows "fst (send_command scripted_wire K code force s) = 0 \<and>
         nreads (snd (send_command scripted_wire K code force s)) = nreads s + 1 + (k + 1)"
  using assms by (simp add: run_decided [of s K force k code] Let_def scripted_simps)

text \<open>
  C4. The counter before the command is 15 and the command is issued. If, after any number
  \<open>k\<close> of quiet polls within the budget, a status read with the error flag clear shows the
  counter at 0, \<^verbatim>\<open>send_command\<close> returns 0 at that read (\<open>k + 1\<close> polls after the initial
  read): the result and the number of polls are those of a strict increase of the counter.
\<close>

theorem send_command_wraparound:
  assumes "CMD_CTR K = 0x0F"
    and "uint (seen (replies s (nreads s)) AND 0x0F) = 15"
    and "seen (replies s (nreads s)) AND CMD_ERR K = 0 \<or> force"
    and "k < MAX_RETRIES"
    and "\<forall>j<k. status_quiet K 15 (seen (replies s (nreads s + 1 + j)))"
    and "seen (replies s (nreads s + 1 + k)) AND CMD_ERR K = 0"
    and "uint (seen (replies s (nreads s + 1 + k)) AND 0x0F) = 0"
  shows "fst (send_command scripted_wire K code force s) = 0 \<and>
         nreads (snd (send_command scripted_wire K code force s)) = nreads s + 1 + (k + 1)"
  using assms by (simp add: run_decided [of s K force k code] Let_def scripted_simps)

theorem send_command_wraparound_witness:
  "fst (send_command scripted_wire datasheet 1 False
          \<lparr>replies = (\<lambda>n. if n < 3 then Some 0x0F else Some 0), nreads = 0, sent = []\<rparr>) = 0 \<and>
   nreads (snd (send_command scripted_wire datasheet 1 False
          \<lparr>replies = (\<lambda>n. if n < 3 then Some 0x0F else Some 0), nreads = 0, sent = []\<rparr>)) = 4"
proof -
  let ?s = "\<lparr>replies = (\<lambda>n. if n < 3 then Some (0x0F :: byte) else Some 0), nreads = 0, sent = []\<rparr>"
  have 1: "CMD_CTR datasheet = 0x0F" by (simp add: datasheet_def)
  have 2: "uint (seen (replies ?s (nreads ?s)) AND 0x0F) = 15" by (simp add: seen_Some)
  have 3: "seen (replies ?s (nreads ?s)) AND CMD_ERR datasheet = 0 \<or> False"
    by (simp add: seen_Some datasheet_def)
  have 4: "(2 :: nat) < MAX_RETRIES" by (simp add: MAX_RETRIES_def)
  have 5: "\<forall>j<2. status_quiet datasheet 15 (seen (replies ?s (nreads ?s + 1 + j)))"
    by (simp add: seen_Some status_quiet_def datasheet_def)
  have 6: "seen (replies ?s (nreads ?s + 1 + 2)) AND CMD_ERR datasheet = 0"
    by (simp add: seen_Some)
  have 7: "uint (seen (replies ?s (nreads ?s + 1 + 2)) AND 0x0F) = 0"
    by (simp add: seen_Some)
  from send_command_wraparound [OF 1 2 3 4 5 6 7, of 1]
  show ?thesis by simp
qed

text \<open>
  C5. If the command is issued and each of the \<open>MAX_RETRIES\<close> polls is quiet (error flag
  clear, counter not advanced in the sense of the loop's test, wrap-around included),
  \<^verbatim>\<open>send_command\<close> returns 17 after the initial read and exactly 10000 polls, having
  transmitted the command packet once. Conversely 17 is returned in that case only: no
  return value derived from a counter (\<open>-(c + 1)\<close>, \<open>c + 1\<close> with \<open>c \<le> 15\<close>, or 0) equals 17.
\<close>

theorem send_command_timeout:
  assumes "CMD_CTR K = 0x0F"
  shows "((seen (replies s (nreads s)) AND CMD_ERR K = 0 \<or> force) \<and>
          (\<forall>j<MAX_RETRIES. status_quiet K (uint (seen (replies s (nreads s)) AND 0x0F))
                  (seen (replies s (nreads s + 1 + j))))
          \<longrightarrow> send_command scripted_wire K code force s =
                (17, s\<lparr>nreads := nreads s + 1 + 10000,
                       sent := sent s @ [(DEVICE_ADDRESS K, [RESPONSE_0 K]),
                                         (DEVICE_ADDRESS K, [COMMAND K, code])]
                                 @ replicate 10000 (DEVICE_ADDRESS K, [RESPONSE_0 K])\<rparr>))
         \<and> (fst (send_command scripted_wire K code force s) = 17 \<longrightarrow>
              (seen (replies s (nreads s)) AND CMD_ERR K = 0 \<or> force) \<and>
              (\<forall>j<MAX_RETRIES. status_quiet K (uint (seen (replies s (nreads s)) AND 0x0F))
                  (seen (replies s (nreads s + 1 + j)))))"
proof -
  have m: "MAX_RETRIES = 10000" by (simp add: MAX_RETRIES_def)
  have a: "(seen (replies s (nreads s)) AND CMD_ERR K = 0 \<or> force) \<and>
          (\<forall>j<MAX_RETRIES. status_quiet K (uint (seen (replies s (nreads s)) AND CMD_CTR K))
                  (seen (replies s (nreads s + 1 + j))))
          \<Longrightarrow> send_command scripted_wire K code force s =
                (17, s\<lparr>nreads := nreads s + 1 + MAX_RETRIES,
                       sent := sent s @ [(DEVICE_ADDRESS K, [RESPONSE_0 K]),
                                         (DEVICE_ADDRESS K, [COMMAND K, code])]
                                 @ replicate MAX_RETRIES (DEVICE_ADDRESS K, [RESPONSE_0 K])\<rparr>)"
    by (rule run_timeout) simp_all
  note b = run_codes [OF assms, of code force s]
  show ?thesis
    using a b unfolding assms by (simp only: m) blast
qed

theorem send_command_timeout_witness:
  "send_command scripted_wire datasheet 1 False \<lparr>replies = (\<lambda>n. Some 0x03), nreads = 0, sent = []\<rparr> =
     (17, \<lparr>replies = (\<lambda>n. Some 0x03), nreads = 10001,
           sent = [(0x53, [0x11]), (0x53, [0x0B, 1])] @ replicate 10000 (0x53, [0x11])\<rparr>)"
proof -
  let ?s = "\<lparr>replies = (\<lambda>n. Some (0x03 :: byte)), nreads = 0, sent = []\<rparr>"
  have 1: "CMD_CTR datasheet = 0x0F" by (simp add: datasheet_def)
  have 2: "seen (replies ?s (nreads ?s)) AND CMD_ERR datasheet = 0 \<or> False"
    by (simp add: seen_Some datasheet_def)
  have 3: "\<forall>j<MAX_RETRIES. status_quiet datasheet (uint (seen (replies ?s (nreads ?s)) AND 0x0F))
                  (seen (replies ?s (nreads ?s + 1 + j)))"
    by (simp add: seen_Some status_quiet_def datasheet_def)
  from send_command_timeout [OF 1, of ?s False 1] 2 3
  have "send_command scripted_wire datasheet 1 False ?s =
          (17, ?s\<lparr>nreads := nreads ?s + 1 + 10000,
                  sent := sent ?s @ [(DEVICE_ADDRESS datasheet, [RESPONSE_0 datasheet]),
                                     (DEVICE_ADDRESS datasheet, [COMMAND datasheet, 1])]
                            @ replicate 10000 (DEVICE_ADDRESS datasheet, [RESPONSE_0 datasheet])\<rparr>)"
    by blast
  then show ?thesis by (simp add: datasheet_def)
qed

text \<open>
  C6. The command is issued. If, after any number \<open>k\<close> of quiet polls within the budget, a
  status read shows the error flag, \<^verbatim>\<open>send_command\<close> returns at that read the low four
  bits of it plus one, a strictly positive value.
\<close>

theorem send_command_inflight_error:
  assumes "CMD_CTR K = 0x0F"
    and "seen (replies s (nreads s)) AND CMD_ERR K = 0 \<or> force"
    and "k < MAX_RETRIES"
    and "\<forall>j<k. status_quiet K (uint (seen (replies s (nreads s)) AND 0x0F))
                  (seen (replies s (nreads s + 1 + j)))"
    and "seen (replies s (nreads s + 1 + k)) AND CMD_ERR K \<noteq> 0"
  shows "fst (send_command scripted_wire K code force s) =
           uint (seen (replies s (nreads s + 1 + k)) AND 0x0F) + 1 \<and>
         0 < fst (send_command scripted_wire K code force s) \<and>
         nreads (snd (send_command scripted_wire K code force s)) = nreads s + 1 + (k + 1)"
  using assms by (simp add: run_decided [of s K force k code] Let_def scripted_simps)

theorem send_command_inflight_error_witness:
  "fst (send_command scripted_wire datasheet 1 False
          \<lparr>replies = (\<lambda>n. if n < 3 then Some 0x03 else Some 0x11), nreads = 0, sent = []\<rparr>) = 2 \<and>
   nreads (snd (send_command scripted_wire datasheet 1 False
          \<lparr>replies = (\<lambda>n. if n < 3 then Some 0x03 else Some 0x11), nreads = 0, sent = []\<rparr>)) = 4"
proof -
  let ?s = "\<lparr>replies = (\<lambda>n. if n < 3 then Some (0x03 :: byte) else Some 0x11), nreads = 0, sent = []\<rparr>"
  have 1: "CMD_CTR datasheet = 0x0F" by (simp add: datasheet_def)
  have 2: "seen (replies ?s (nreads ?s)) AND CMD_ERR datasheet = 0 \<or> False"
    by (simp add: seen_Some datasheet_def)
  have 3: "(2 :: nat) < MAX_RETRIES" by (simp add: MAX_RETRIES_def)
  have 4: "\<forall>j<2. status_quiet datasheet (uint (seen (replies ?s (nreads ?s)) AND 0x0F))
                  (seen (replies ?s (nreads ?s + 1 + j)))"
    by (simp add: seen_Some status_quiet_def datasheet_def)
  have 5: "seen (replies ?s (nreads ?s + 1 + 2)) AND CMD_ERR datasheet \<noteq> 0"
    by (simp add: seen_Some datasheet_def)
  from send_command_inflight_error [OF 1 2 3 4 5, of 1]
  show ?thesis by (simp add: seen_Some)
qed

text \<open>
  C9. If the initial status read fails (no byte available, \<^verbatim>\<open>read_register\<close> gives \<open>-1\<close>)
  and \<open>force\<close> is false, \<^verbatim>\<open>send_command\<close> returns \<open>-16\<close>: the byte \<open>0xFF\<close> has every flag
  bit set and counter field 15. A device that answers that read with any status byte of
  counter 15 and error flag set yields the same return value.
\<close>

theorem send_command_bus_failure:
  assumes "CMD_CTR K = 0x0F" and "CMD_ERR K \<noteq> 0"
    and "replies s (nreads s) = None"
  shows "fst (send_command scripted_wire K code False s) = - 16 \<and>
         (\<forall>b. b AND 0x0F = 0x0F \<and> b AND CMD_ERR K \<noteq> 0 \<longrightarrow>
            fst (send_command scripted_wire K code False
                   (s\<lparr>replies := (replies s)(nreads s := Some b)\<rparr>)) =
            fst (send_command scripted_wire K code False s))"
proof -
  have "(255 :: byte) = - 1" by simp
  then have "(255 :: byte) AND CMD_ERR K = CMD_ERR K" by (simp only: and.left_neutral)
  with assms show ?thesis
    by (simp add: send_command_scripted Let_def seen_None seen_Some)
qed

theorem send_command_bus_failure_witness:
  "fst (send_command scripted_wire datasheet 1 False
          \<lparr>replies = (\<lambda>n. None), nreads = 0, sent = []\<rparr>) = - 16 \<and>
   fst (send_command scripted_wire datasheet 1 False
          \<lparr>replies = (\<lambda>n. None)(0 := Some 0x1F), nreads = 0, sent = []\<rparr>) = - 16"
proof -
  let ?s = "\<lparr>replies = (\<lambda>n. None :: byte option), nreads = 0, sent = []\<rparr>"
  have 1: "CMD_CTR datasheet = 0x0F" and 2: "CMD_ERR datasheet \<noteq> 0"
    and 3: "replies ?s (nreads ?s) = None"
    by (simp_all add: datasheet_def)
  note t = send_command_bus_failure [OF 1 2 3, of 1]
  from t have a: "fst (send_command scripted_wire datasheet 1 False ?s) = - 16"
    by (rule conjunct1)
  have 4: "(0x1F :: byte) AND 0x0F = 0x0F \<and> 0x1F AND CMD_ERR datasheet \<noteq> 0"
    by (simp add: datasheet_def)
  from t have "fst (send_command scripted_wire datasheet 1 False
                      (?s\<lparr>replies := (replies ?s)(nreads ?s := Some 0x1F)\<rparr>)) =
               fst (send_command scripted_wire datasheet 1 False ?s)"
    using 4 by blast
  with a have "fst (send_command scripted_wire datasheet 1 False
                      (?s\<lparr>replies := (replies ?s)(nreads ?s := Some 0x1F)\<rparr>)) = - 16"
    by (simp only:)
  then have b: "fst (send_command scripted_wire datasheet 1 False
          \<lparr>replies = (\<lambda>n. None)(0 := Some 0x1F), nreads = 0, sent = []\<rparr>) = - 16"
    by simp
  from a b show ?thesis by (rule conjI)
qed

section \<open>Claims about the result decoder\<close>

text \<open>
  C7. \<^verbatim>\<open>read_output\<close> makes four byte reads. If any of them finds no byte (and so returns
  \<open>-1\<close>), the reading is the uninitialised \<open>result\<close> with \<open>ok\<close> set to \<open>-1\<close>: its channel
  fields are not assigned, whatever the other three reads returned. If all four return
  bytes \<open>a\<close>, \<open>b\<close>, \<open>c\<close>, \<open>d\<close>, then \<open>ok\<close> is 0, \<open>ir\<close> is \<open>a * 256 + b\<close> and \<open>vis\<close> is
  \<open>c * 256 + d\<close>.
\<close>

theorem read_output_all_or_nothing:
  "((\<exists>j<4. replies s (nreads s + j) = None) \<longrightarrow>
      fst (read_output scripted_wire K result s) = result\<lparr>ok := - 1\<rparr>) \<and>
   (\<forall>a b c d.
      replies s (nreads s) = Some a \<and> replies s (nreads s + 1) = Some b \<and>
      replies s (nreads s + 2) = Some c \<and> replies s (nreads s + 3) = Some d \<longrightarrow>
      fst (read_output scripted_wire K result s) =
        result\<lparr>ok := 0, ir := uint a * 256 + uint b, vis := uint c * 256 + uint d\<rparr>)"
proof -
  have four: "(\<exists>j<4. P j) \<longleftrightarrow> P 0 \<or> P 1 \<or> P 2 \<or> P (3::nat)" for P
  proof -
    have "{..<4::nat} = {0, 1, 2, 3}" by auto
    then have "(\<exists>j<4. P j) \<longleftrightarrow> (\<exists>j\<in>{0, 1, 2, 3}. P j)" by (metis lessThan_iff)
    then show ?thesis by simp
  qed
  have neg: "(case a of None \<Rightarrow> - 1 | Some b \<Rightarrow> uint (b :: byte)) < 0 \<longleftrightarrow> a = None" for a
    by (cases a) simp_all
  show ?thesis
    unfolding four
    by (auto simp: read_output_def read_register_scripted Let_def neg eval_nat_numeral)
qed

theorem read_output_all_or_nothing_witness:
  "fst (read_output scripted_wire datasheet \<lparr>ok = 7, ir = 11, vis = 13\<rparr>
          \<lparr>replies = (\<lambda>n. if n = 2 then None else Some 0x80), nreads = 0, sent = []\<rparr>) =
     \<lparr>ok = - 1, ir = 11, vis = 13\<rparr> \<and>
   fst (read_output scripted_wire datasheet \<lparr>ok = 7, ir = 11, vis = 13\<rparr>
          \<lparr>replies = (\<lambda>n. if n = 2 then Some 0xFF else Some 0x80), nreads = 0, sent = []\<rparr>) =
     \<lparr>ok = 0, ir = 32896, vis = 65408\<rparr>"
proof -
  let ?r = "\<lparr>ok = 7, ir = 11, vis = 13\<rparr>"
  let ?bad = "\<lparr>replies = (\<lambda>n. if n = 2 then None else Some (0x80 :: byte)), nreads = 0, sent = []\<rparr>"
  let ?good = "\<lparr>replies = (\<lambda>n. if n = 2 then Some 0xFF else Some (0x80 :: byte)), nreads = 0, sent = []\<rparr>"
  have "(2 :: nat) < 4 \<and> replies ?bad (nreads ?bad + 2) = None" by simp
  then have 1: "\<exists>j<4. replies ?bad (nreads ?bad + j) = None" by blast
  from read_output_all_or_nothing [of ?bad datasheet ?r] 1
  have "fst (read_output scripted_wire datasheet ?r ?bad) = ?r\<lparr>ok := - 1\<rparr>"
    by blast
  then have a: "fst (read_output scripted_wire datasheet ?r ?bad) = \<lparr>ok = - 1, ir = 11, vis = 13\<rparr>"
    by simp
  have 2: "replies ?good (nreads ?good) = Some 0x80 \<and> replies ?good (nreads ?good + 1) = Some 0x80 \<and>
           replies ?good (nreads ?good + 2) = Some 0xFF \<and> replies ?good (nreads ?good + 3) = Some 0x80"
    by simp
  from read_output_all_or_nothing [of ?good datasheet ?r] 2
  have "fst (read_output scripted_wire datasheet ?r ?good) =
          ?r\<lparr>ok := 0, ir := uint (0x80 :: byte) * 256 + uint (0x80 :: byte),
               vis := uint (0xFF :: byte) * 256 + uint (0x80 :: byte)\<rparr>"
    by blast
  then have b: "fst (read_output scripted_wire datasheet ?r ?good) = \<lparr>ok = 0, ir = 32896, vis = 65408\<rparr>"
    by simp
  from a b show ?thesis by (rule conjI)
qed

section \<open>Claims about parameter access\<close>

text \<open>
  One pass of \<^verbatim>\<open>param_set\<close> on the scripted bus: the snapshot and the read after the commit
  are two consecutive answers of the script, and the pass is repeated exactly when the
  second is greater than the first.
\<close>

lemma param_set_round_scripted:
  "param_set scripted_wire K loc val s =
     (let cmmnd_ctr = (case replies s (nreads s) of None \<Rightarrow> - 1 | Some b \<Rightarrow> uint b);
          r = (case replies s (nreads s + 1) of None \<Rightarrow> - 1 | Some b \<Rightarrow> uint b);
          s' = s\<lparr>nreads := nreads s + 2,
                 sent := sent s @ [(DEVICE_ADDRESS K, [RESPONSE_0 K]),
                                   (DEVICE_ADDRESS K, [HOSTIN_0 K, val]),
                                   (DEVICE_ADDRESS K, [COMMAND K, loc OR 0x80]),
                                   (DEVICE_ADDRESS K, [RESPONSE_0 K])]\<rparr>
      in if r > cmmnd_ctr then param_set scripted_wire K loc val s' else Some s')"
  by (subst param_set.simps)
     (simp add: param_set_body_def read_register_scripted write_data_scripted Let_def)

text \<open>
  C1. The claim has \<^verbatim>\<open>param_set\<close> repeat its sequence when the counter read after the commit
  is not greater than the snapshot, and stop when it is greater. The loop of the source is
  \<^verbatim>\<open>do { ... } while (r > cmmnd_ctr)\<close>: it does the opposite. On a bus whose status goes from 3
  to 4 in the first pass, the driver makes a second pass (four reads, the four packets
  sent twice); on a bus whose status stays at 3 for ever, it returns after one pass.
\<close>

theorem param_set_loop_inverted:
  "map_option (\<lambda>s. (nreads s, sent s))
     (param_set scripted_wire datasheet 5 7
        \<lparr>replies = (\<lambda>n. if n = 0 then Some 3 else Some 4), nreads = 0, sent = []\<rparr>) =
     Some (4, [(0x53, [0x11]), (0x53, [0x0A, 7]), (0x53, [0x0B, 0x85]), (0x53, [0x11]),
               (0x53, [0x11]), (0x53, [0x0A, 7]), (0x53, [0x0B, 0x85]), (0x53, [0x11])]) \<and>
   map_option (\<lambda>s. (nreads s, sent s))
     (param_set scripted_wire datasheet 5 7
        \<lparr>replies = (\<lambda>n. Some 3), nreads = 0, sent = []\<rparr>) =
     Some (2, [(0x53, [0x11]), (0x53, [0x0A, 7]), (0x53, [0x0B, 0x85]), (0x53, [0x11])])"
  by code_simp

subsection \<open>The driver on the simulated device\<close>

lemma uint_ucast_ctr: "uint (ucast (c :: 4 word) :: byte) = uint c"
proof -
  have "uint c < 2 ^ 8" using uint_bounded [of c] by simp
  then show ?thesis by (simp add: unsigned_ucast_eq take_bit_int_eq_self_iff)
qed

lemma ctr_inc: "c \<noteq> (15 :: 4 word) \<Longrightarrow> uint (c + 1) = uint c + 1"
proof -
  assume ne: "c \<noteq> 15"
  have lt: "uint c < 16" using uint_bounded [of c] by simp
  have "uint c \<noteq> 15"
  proof
    assume "uint c = 15"
    then have "uint c = uint (15 :: 4 word)" by simp
    then have "c = 15" by (simp only: word_uint_eq_iff [symmetric])
    with ne show False by simp
  qed
  with lt have "uint c + uint (1 :: 4 word) < 2 ^ LENGTH(4)" by simp
  then have "uint (c + 1) = uint c + uint (1 :: 4 word)" by (simp only: uint_add_lem)
  then show ?thesis by simp
qed

lemma ctr_wrap: "uint ((15 :: 4 word) + 1) = 0"
  by simp

lemma low6:
  assumes "(loc :: byte) < 0x40"
  shows "loc AND 0x3F = loc" and "loc AND 0xC0 = 0"
proof -
  from assms have "loc < 2 ^ 6" by simp
  then have "loc AND mask 6 = loc" by (rule less_mask_eq)
  then show a: "loc AND 0x3F = loc" by (simp add: mask_eq_exp_minus_1)
  have "loc AND 0xC0 = (loc AND 0x3F) AND 0xC0" by (simp only: a)
  also have "\<dots> = loc AND (0x3F AND 0xC0)" by (simp only: and.assoc)
  also have "\<dots> = 0" by simp
  finally show "loc AND 0xC0 = 0" .
qed

lemma tag_set:
  assumes "(loc :: byte) < 0x40"
  shows "(loc OR 0x80) AND 0xC0 = 0x80" and "(loc OR 0x80) AND 0x3F = loc"
  by (simp_all add: bit.conj_disj_distrib2 low6 [OF assms])

lemma tag_query:
  assumes "(loc :: byte) < 0x40"
  shows "(loc OR 0x40) AND 0xC0 = 0x40" and "(loc OR 0x40) AND 0x3F = loc"
  by (simp_all add: bit.conj_disj_distrib2 low6 [OF assms])

text \<open>
  On the device without latency and with nothing waiting, one pass of either loop finishes
  its command and sees the counter one further.
\<close>

lemma set_body_sim:
  assumes "loc < 0x40" and "HOSTIN_0 K \<noteq> COMMAND K" and "dev_pending d = []"
  shows "param_set_body (sim_wire K 0) K loc val d =
           (uint (dev_counter d), uint (dev_counter d + 1),
            d\<lparr>dev_pointer := RESPONSE_0 K, dev_hostin := val,
              dev_table := (dev_table d)(loc := val), dev_counter := dev_counter d + 1\<rparr>)"
  using assms(2,3)
  by (simp add: param_set_body_def read_register_def write_data_def sim_wire_def sim_tick_def
        sim_command_def tag_set [OF assms(1)] uint_ucast_ctr Let_def)

lemma query_body_sim:
  assumes "loc < 0x40" and "HOSTIN_0 K \<noteq> COMMAND K" and "dev_pending d = []"
  shows "param_query_body (sim_wire K 0) K loc d =
           (uint (dev_counter d), uint (dev_counter d + 1),
            d\<lparr>dev_pointer := RESPONSE_0 K, dev_response1 := dev_table d loc,
              dev_counter := dev_counter d + 1\<rparr>)"
  using assms(2,3)
  by (simp add: param_query_body_def read_register_def write_data_def sim_wire_def sim_tick_def
        sim_command_def tag_query [OF assms(1)] uint_ucast_ctr Let_def)

lemma ctr_measure:
  "c \<noteq> (15 :: 4 word) \<Longrightarrow> nat (15 - uint (c + 1)) < nat (15 - uint c)"
proof -
  assume ne: "c \<noteq> 15"
  have "uint c < 16" using uint_bounded [of c] by simp
  moreover have "0 \<le> uint c" by simp
  moreover have "uint c \<noteq> 15"
  proof
    assume "uint c = 15"
    then have "uint c = uint (15 :: 4 word)" by simp
    then have "c = 15" by (simp only: word_uint_eq_iff [symmetric])
    with ne show False by simp
  qed
  ultimately show ?thesis by (simp add: ctr_inc [OF ne])
qed

text \<open>
  With \<^verbatim>\<open>while (r > cmmnd_ctr)\<close> the driver repeats its pass on this device for as long as
  the counter goes up, and returns when it wraps from 15 to 0: both loops end, after
  at most 16 passes.
\<close>

lemma param_set_sim:
  assumes "loc < 0x40" and "HOSTIN_0 K \<noteq> COMMAND K"
  shows "dev_pending d = [] \<longrightarrow>
         (\<exists>d'. param_set (sim_wire K 0) K loc val d = Some d' \<and>
               dev_table d' = (dev_table d)(loc := val) \<and> dev_pending d' = [])"
proof (induction d rule: measure_induct_rule [where f = "\<lambda>d. nat (15 - uint (dev_counter d))"])
  case (less d)
  let ?d1 = "d\<lparr>dev_pointer := RESPONSE_0 K, dev_hostin := val,
              dev_table := (dev_table d)(loc := val), dev_counter := dev_counter d + 1\<rparr>"
  show ?case
  proof
    assume idle: "dev_pending d = []"
    note body = set_body_sim [OF assms idle]
    show "\<exists>d'. param_set (sim_wire K 0) K loc val d = Some d' \<and>
               dev_table d' = (dev_table d)(loc := val) \<and> dev_pending d' = []"
    proof (cases "dev_counter d = 15")
      case True
      then have "param_set (sim_wire K 0) K loc val d = Some ?d1"
        by (subst param_set.simps) (simp add: body)
      moreover have "dev_table ?d1 = (dev_table d)(loc := val)" by simp
      moreover have "dev_pending ?d1 = []" using idle by simp
      ultimately show ?thesis by blast
    next
      case False
      then have step: "param_set (sim_wire K 0) K loc val d = param_set (sim_wire K 0) K loc val ?d1"
        by (subst param_set.simps) (simp add: body ctr_inc)
      have sel: "dev_counter ?d1 = dev_counter d + 1" by simp
      have m: "nat (15 - uint (dev_counter ?d1)) < nat (15 - uint (dev_counter d))"
        unfolding sel using False by (rule ctr_measure)
      have idle1: "dev_pending ?d1 = []" using idle by simp
      from less.IH [OF m] idle1 obtain d' where
        d': "param_set (sim_wire K 0) K loc val ?d1 = Some d'"
        and t': "dev_table d' = (dev_table ?d1)(loc := val)"
        and p': "dev_pending d' = []"
        by blast
      from d' step have "param_set (sim_wire K 0) K loc val d = Some d'" by (simp only:)
      moreover from t' have "dev_table d' = (dev_table d)(loc := val)" by simp
      ultimately show ?thesis using p' by blast
    qed
  qed
qed

lemma param_query_wait_sim:
  assumes "loc < 0x40" and "HOSTIN_0 K \<noteq> COMMAND K"
  shows "dev_pending d = [] \<longrightarrow>
         (\<exists>d'. param_query_wait (sim_wire K 0) K loc d = Some d' \<and>
               dev_response1 d' = dev_table d loc \<and> dev_pending d' = [])"
proof (induction d rule: measure_induct_rule [where f = "\<lambda>d. nat (15 - uint (dev_counter d))"])
  case (less d)
  let ?d1 = "d\<lparr>dev_pointer := RESPONSE_0 K, dev_response1 := dev_table d loc,
              dev_counter := dev_counter d + 1\<rparr>"
  show ?case
  proof
    assume idle: "dev_pending d = []"
    note body = query_body_sim [OF assms idle]
    show "\<exists>d'. param_query_wait (sim_wire K 0) K loc d = Some d' \<and>
               dev_response1 d' = dev_table d loc \<and> dev_pending d' = []"
    proof (cases "dev_counter d = 15")
      case True
      then have "param_query_wait (sim_wire K 0) K loc d = Some ?d1"
        by (subst param_query_wait.simps) (simp add: body)
      moreover have "dev_response1 ?d1 = dev_table d loc" by simp
      moreover have "dev_pending ?d1 = []" using idle by simp
      ultimately show ?thesis by blast
    next
      case False
      then have step: "param_query_wait (sim_wire K 0) K loc d =
                       param_query_wait (sim_wire K 0) K loc ?d1"
        by (subst param_query_wait.simps) (simp add: body ctr_inc)
      have sel: "dev_counter ?d1 = dev_counter d + 1" by simp
      have m: "nat (15 - uint (dev_counter ?d1)) < nat (15 - uint (dev_counter d))"
        unfolding sel using False by (rule ctr_measure)
      have idle1: "dev_pending ?d1 = []" using idle by simp
      from less.IH [OF m] idle1 obtain d' where
        d': "param_query_wait (sim_wire K 0) K loc ?d1 = Some d'"
        and r': "dev_response1 d' = dev_table ?d1 loc"
        and p': "dev_pending d' = []"
        by blast
      from d' step have "param_query_wait (sim_wire K 0) K loc d = Some d'" by (simp only:)
      moreover from r' have "dev_response1 d' = dev_table d loc" by simp
      ultimately show ?thesis using p' by blast
    qed
  qed
qed

lemma read_result_sim:
  assumes "RESPONSE_0 K \<noteq> RESPONSE_1 K" and "dev_pending d = []"
  shows "fst (read_register (sim_wire K latency) (DEVICE_ADDRESS K) (RESPONSE_1 K) 1 d) =
         uint (dev_response1 d)"
  using assms by (auto simp: read_register_def write_data_def sim_wire_def sim_tick_def Let_def)

text \<open>
  Without latency the round trip holds: the wait of the driver does not matter when there
  is nothing to wait for.
\<close>

lemma param_roundtrip_instant:
  assumes "loc < 0x40" and "HOSTIN_0 K \<noteq> COMMAND K" and "RESPONSE_0 K \<noteq> RESPONSE_1 K"
    and "dev_pending d = []"
  shows "\<exists>d'. set_then_query (sim_wire K 0) K loc val d = Some (uint val, d')"
proof -
  from param_set_sim [OF assms(1,2), of d val] assms(4) obtain d1 where
    1: "param_set (sim_wire K 0) K loc val d = Some d1" and t: "dev_table d1 loc = val"
    and p1: "dev_pending d1 = []"
    by auto
  from param_query_wait_sim [OF assms(1,2), of d1] p1 obtain d2 where
    2: "param_query_wait (sim_wire K 0) K loc d1 = Some d2" and r: "dev_response1 d2 = val"
    and p2: "dev_pending d2 = []"
    using t by auto
  have "set_then_query (sim_wire K 0) K loc val d =
          Some (read_register (sim_wire K 0) (DEVICE_ADDRESS K) (RESPONSE_1 K) 1 d2)"
    by (simp add: set_then_query_def param_query_def 1 2)
  moreover have "fst (read_register (sim_wire K 0) (DEVICE_ADDRESS K) (RESPONSE_1 K) 1 d2) = uint val"
    by (simp add: read_result_sim [OF assms(3) p2] r)
  ultimately have "set_then_query (sim_wire K 0) K loc val d =
          Some (uint val, snd (read_register (sim_wire K 0) (DEVICE_ADDRESS K) (RESPONSE_1 K) 1 d2))"
    by (metis prod.collapse)
  then show ?thesis by blast
qed

text \<open>
  With a latency of five requests or more, both loops leave at their first pass, since the
  counter has not moved yet, and the result register is read before any command is
  finished: the query returns what the result register held before, and the table is
  still unchanged when the driver returns.
\<close>

lemma param_roundtrip_slow:
  assumes "5 \<le> latency" and "dev_pending d = []"
    and "HOSTIN_0 K \<noteq> COMMAND K" and "RESPONSE_0 K \<noteq> RESPONSE_1 K"
  shows "\<exists>d'. set_then_query (sim_wire K latency) K loc val d = Some (uint (dev_response1 d), d') \<and>
              dev_table d' = dev_table d"
proof -
  from assms(1) obtain m where m: "latency = m + 5"
    by (metis add.commute le_Suc_ex)
  let ?W = "sim_wire K (m + 5)"
  let ?d1 = "d\<lparr>dev_pointer := RESPONSE_0 K, dev_hostin := val,
              dev_pending := [loc OR 0x80], dev_left := m + 4\<rparr>"
  let ?d2 = "d\<lparr>dev_pointer := RESPONSE_0 K, dev_hostin := val,
              dev_pending := [loc OR 0x80, loc OR 0x40], dev_left := m + 2\<rparr>"
  let ?d3 = "d\<lparr>dev_pointer := RESPONSE_1 K, dev_hostin := val,
              dev_pending := [loc OR 0x80, loc OR 0x40], dev_left := m + 1\<rparr>"
  have 1: "param_set ?W K loc val d = Some ?d1"
    using assms(2,3)
    by (subst param_set.simps)
       (simp add: param_set_body_def read_register_def write_data_def sim_wire_def sim_tick_def Let_def)
  have 2: "param_query_wait ?W K loc ?d1 = Some ?d2"
    using assms(3)
    by (subst param_query_wait.simps)
       (simp add: param_query_body_def read_register_def write_data_def sim_wire_def sim_tick_def Let_def)
  have 3: "read_register ?W (DEVICE_ADDRESS K) (RESPONSE_1 K) 1 ?d2 = (uint (dev_response1 d), ?d3)"
    using assms(4)
    by (simp add: read_register_def write_data_def sim_wire_def sim_tick_def Let_def)
  have "set_then_query ?W K loc val d = Some (uint (dev_response1 d), ?d3)"
    by (simp only: set_then_query_def param_query_def 1 2 3 option.case)
  moreover have "dev_table ?d3 = dev_table d" by simp
  ultimately show ?thesis unfolding m by blast
qed

text \<open>
  The same slow device, driven with the wait of \<^verbatim>\<open>send_command\<close> (stage the byte, send the
  tagged write, send the tagged query, read the result register): both commands return
  0 and the value read is the value staged.
\<close>

lemma send_command_waits_for_slow_device:
  "(let W = sim_wire datasheet 5;
        d1 = write_data W 0x53 [0x0A, 7] sim_idle;
        (r1, d2) = send_command W datasheet 0x85 False d1;
        (r2, d3) = send_command W datasheet 0x45 False d2;
        (v, d4) = read_register W 0x53 0x10 1 d3
    in (r1, r2, v, dev_table d4 5, dev_pending d4)) = (0, 0, 7, 7, [])"
  by (simp add: send_command_def send_command_loop.simps read_register_def write_data_def
        sim_wire_def sim_tick_def sim_command_def sim_idle_def datasheet_def to_uint8_def
        MAX_RETRIES_def Let_def)


section \<open>Claims about the instruction decoder\<close>

lemma fields_set_gain: "fields ''SET gain 5 0'' = [''SET'', ''gain'', ''5'', ''0'']"
  by (simp add: fields_def is_blank_def)
lemma fields_msr_temp: "fields ''MSR temp'' = [''MSR'', ''temp'']"
  by (simp add: fields_def is_blank_def)
lemma fields_foo_bar: "fields ''foo bar'' = [''foo'', ''bar'']"
  by (simp add: fields_def is_blank_def)
lemma fields_empty: "fields '''' = []"
  by (simp add: fields_def)
lemma decimal_5_0: "decimal ''5'' = Some 5" "decimal ''0'' = Some 0"
  by (simp_all add: decimal_def)

lemma decode_malformed:
  assumes "\<exists>f \<in> set (drop 2 (fields line)). num f = None"
  shows "decode_instruction num dflt line = \<lparr>type = UNK, target = line, p1 = dflt, p2 = dflt\<rparr>"
proof (cases "fields line")
  case Nil
  with assms show ?thesis by simp
next
  case (Cons verb rest)
  note c1 = this
  show ?thesis
  proof (cases rest)
    case Nil
    with assms c1 show ?thesis by simp
  next
    case (Cons tgt params)
    with assms c1 have bad: "\<exists>f \<in> set params. num f = None" by simp
    show ?thesis
    proof (cases "verb_type verb = UNK")
      case True
      with c1 Cons show ?thesis
        by (simp add: decode_instruction_def unknown_instruction_def)
    next
      case False
      with bad c1 Cons show ?thesis
        by (auto simp: decode_instruction_def unknown_instruction_def
                split: list.splits option.splits)
    qed
  qed
qed

text \<open>
  C10. For any numeric syntax that reads \<^verbatim>\<open>5\<close> and \<^verbatim>\<open>0\<close> as numbers: \<^verbatim>\<open>SET gain 5 0\<close>
  decodes to \<open>SET\<close>, target \<^verbatim>\<open>gain\<close>, and those two numbers; \<^verbatim>\<open>MSR temp\<close> to \<open>MSR\<close>,
  target \<^verbatim>\<open>temp\<close>, and the default in both numeric fields; \<^verbatim>\<open>foo bar\<close> and the empty line
  to \<open>UNK\<close>; and every line with a malformed numeric field to \<open>UNK\<close> with the line itself
  as target. The decoder is a total function: it has a result on every line.
\<close>

theorem decode_instruction_examples:
  assumes "num ''5'' = Some five" and "num ''0'' = Some zero"
  shows "decode_instruction num dflt ''SET gain 5 0'' =
           \<lparr>type = SET, target = ''gain'', p1 = five, p2 = zero\<rparr> \<and>
         decode_instruction num dflt ''MSR temp'' =
           \<lparr>type = MSR, target = ''temp'', p1 = dflt, p2 = dflt\<rparr> \<and>
         type (decode_instruction num dflt ''foo bar'') = UNK \<and>
         type (decode_instruction num dflt '''') = UNK \<and>
         (\<forall>line. (\<exists>f \<in> set (drop 2 (fields line)). num f = None) \<longrightarrow>
            decode_instruction num dflt line =
              \<lparr>type = UNK, target = line, p1 = dflt, p2 = dflt\<rparr>)"
proof (intro conjI allI impI)
  show "decode_instruction num dflt ''SET gain 5 0'' =
           \<lparr>type = SET, target = ''gain'', p1 = five, p2 = zero\<rparr>"
    by (simp add: decode_instruction_def fields_set_gain verb_type_def assms)
  show "decode_instruction num dflt ''MSR temp'' =
           \<lparr>type = MSR, target = ''temp'', p1 = dflt, p2 = dflt\<rparr>"
    by (simp add: decode_instruction_def fields_msr_temp verb_type_def)
  show "type (decode_instruction num dflt ''foo bar'') = UNK"
    by (simp add: decode_instruction_def fields_foo_bar verb_type_def unknown_instruction_def)
  show "type (decode_instruction num dflt '''') = UNK"
    by (simp add: decode_instruction_def fields_def unknown_instruction_def)
next
  fix line
  assume "\<exists>f \<in> set (drop 2 (fields line)). num f = None"
  then show "decode_instruction num dflt line =
              \<lparr>type = UNK, target = line, p1 = dflt, p2 = dflt\<rparr>"
    by (rule decode_malformed)
qed

lemma fields_malformed: "fields ''SET gain 5x 0'' = [''SET'', ''gain'', ''5x'', ''0'']"
  by (simp add: fields_def is_blank_def)

lemma decimal_malformed: "decimal ''5x'' = None"
  by (simp add: decimal_def)

theorem decode_instruction_examples_witness:
  "decode_instruction decimal (- 1) ''SET gain 5 0'' =
     \<lparr>type = SET, target = ''gain'', p1 = 5, p2 = 0\<rparr> \<and>
   decode_instruction decimal (- 1) ''MSR temp'' =
     \<lparr>type = MSR, target = ''temp'', p1 = - 1, p2 = - 1\<rparr> \<and>
   decode_instruction decimal (- 1) ''SET gain 5x 0'' =
     \<lparr>type = UNK, target = ''SET gain 5x 0'', p1 = - 1, p2 = - 1\<rparr>"
proof -
  note t = decode_instruction_examples [OF decimal_5_0, of "- 1"]
  from t have a: "decode_instruction decimal (- 1) ''SET gain 5 0'' =
     \<lparr>type = SET, target = ''gain'', p1 = 5, p2 = 0\<rparr>" by (rule conjunct1)
  from t have b: "decode_instruction decimal (- 1) ''MSR temp'' =
     \<lparr>type = MSR, target = ''temp'', p1 = - 1, p2 = - 1\<rparr>" by (elim conjE)
  have "''5x'' \<in> set (drop 2 (fields ''SET gain 5x 0'')) \<and> decimal ''5x'' = None"
    by (simp add: fields_malformed decimal_malformed)
  then have bad: "\<exists>f \<in> set (drop 2 (fields ''SET gain 5x 0'')). decimal f = None"
    by blast
  from t have "\<forall>line. (\<exists>f \<in> set (drop 2 (fields line)). decimal f = None) \<longrightarrow>
            decode_instruction decimal (- 1) line =
              \<lparr>type = UNK, target = line, p1 = - 1, p2 = - 1\<rparr>" by (elim conjE)
  with bad have c: "decode_instruction decimal (- 1) ''SET gain 5x 0'' =
     \<lparr>type = UNK, target = ''SET gain 5x 0'', p1 = - 1, p2 = - 1\<rparr>" by blast
  from a b c show ?thesis by (intro conjI)
qed

end
